theory Spec2Isabelle
  imports Complex_Main "HOL-Library.Word"
begin

section \<open>JavaScript values used by the two logging middlewares\<close>

text \<open>
  A header value, \<open>req.ip\<close>, \<open>req.originalUrl\<close> and \<open>socket.remoteAddress\<close> are each
  either a string or \<open>undefined\<close>: a \<open>string option\<close>, \<open>None\<close> being \<open>undefined\<close>.
  Node decodes header bytes as Latin-1, one character per byte, so an 8-bit \<open>char\<close> is
  one character of a header value.

  \<open>a || b\<close> yields \<open>a\<close> when \<open>a\<close> is truthy and \<open>b\<close> otherwise; among strings and
  \<open>undefined\<close> the falsy values are \<open>undefined\<close> and the empty string.
\<close>

definition js_or :: "string option \<Rightarrow> string option \<Rightarrow> string option" where
  "js_or a b = (case a of None \<Rightarrow> b | Some v \<Rightarrow> if v = [] then b else Some v)"

text \<open>\<open>a || "literal"\<close>: the right operand is a string, and so is the result.\<close>

definition js_or_str :: "string option \<Rightarrow> string \<Rightarrow> string" where
  "js_or_str a d = (case a of None \<Rightarrow> d | Some v \<Rightarrow> if v = [] then d else v)"

text \<open>
  \<open>String.prototype.trim\<close> removes white space and line terminators from both ends.
  Among the characters below 256 these are TAB, LF, VT, FF, CR, SP and NBSP.
\<close>

definition is_ws :: "char \<Rightarrow> bool" where
  "is_ws c = (c = CHR 0x09 \<or> c = CHR 0x0A \<or> c = CHR 0x0B \<or> c = CHR 0x0C \<or>
              c = CHR 0x0D \<or> c = CHR 0x20 \<or> c = CHR 0xA0)"

definition js_trim :: "string \<Rightarrow> string" where
  "js_trim s = rev (dropWhile is_ws (rev (dropWhile is_ws s)))"

text \<open>\<open>s.split(",")[0]\<close>: the part of \<open>s\<close> before its first comma (all of \<open>s\<close> without one).\<close>

definition split_comma_0 :: "string \<Rightarrow> string" where
  "split_comma_0 s = takeWhile (\<lambda>c. c \<noteq> CHR '','') s"

subsection \<open>Decimal rendering of non-negative integers\<close>

definition digit_char :: "nat \<Rightarrow> char" where
  "digit_char d = ''0123456789'' ! d"

function digits :: "int \<Rightarrow> string" where
  "digits n =
     (if n < 10 then [digit_char (nat n)]
      else digits (n div 10) @ [digit_char (nat (n mod 10))])"
  by pat_completeness auto
termination
  by (relation "measure nat") auto

declare digits.simps [simp del]

definition is_digit :: "char \<Rightarrow> bool" where
  "is_digit c = (48 \<le> (of_char c :: nat) \<and> (of_char c :: nat) \<le> 57)"

subsection \<open>Binary64 arithmetic on the values the access logger computes\<close>

text \<open>
  \<open>Number(b)\<close> of a BigInt and the division \<open>x / 1e6\<close> both round the exact result to the
  nearest binary64 value, ties to the even significand. The values that occur are
  differences of two unsigned 64-bit nanosecond readings, divided by \<open>10^6\<close>: they are zero
  or lie far inside the normal range, so a value is a rational and rounding keeps 53
  significant bits.
\<close>

text \<open>The number of binary digits of a positive integer.\<close>

function bit_length :: "int \<Rightarrow> nat" where
  "bit_length n = (if n \<le> 0 then 0 else Suc (bit_length (n div 2)))"
  by pat_completeness auto
termination
  by (relation "measure nat") auto

declare bit_length.simps [simp del]

definition pow2 :: "int \<Rightarrow> rat" where
  "pow2 e = (if 0 \<le> e then 2 ^ nat e else 1 / 2 ^ nat (- e))"

text \<open>For \<open>q > 0\<close>, the exponent \<open>e\<close> with \<open>2^e \<le> q < 2^(e+1)\<close>.\<close>

definition floor_log2 :: "rat \<Rightarrow> int" where
  "floor_log2 q =
     (if 1 \<le> q then int (bit_length \<lfloor>q\<rfloor>) - 1
      else - int (bit_length (\<lceil>1 / q\<rceil> - 1)))"

definition round_half_even :: "rat \<Rightarrow> int" where
  "round_half_even q =
     (let f = \<lfloor>q\<rfloor>; r = q - of_int f
      in if r < 1 / 2 then f
         else if 1 / 2 < r then f + 1
         else if even f then f else f + 1)"

definition to_double :: "rat \<Rightarrow> rat" where
  "to_double q =
     (if q = 0 then 0
      else let a = \<bar>q\<bar>; u = pow2 (floor_log2 a - 52)
           in sgn q * of_int (round_half_even (a / u)) * u)"

text \<open>
  \<open>Number.prototype.toFixed(1)\<close> on a finite value below \<open>10^21\<close> in magnitude: with
  \<open>n\<close> the integer nearest to \<open>10 * x\<close> (the larger one of two), the decimal digits of
  \<open>n\<close>, padded to two, with a point before the last. At \<open>10^21\<close> and above the method
  switches to exponent notation, which is not modelled: \<open>durationMs_lt\<close> below shows that
  the access logger never gets there.
\<close>

definition toFixed1 :: "rat \<Rightarrow> string" where
  "toFixed1 x0 =
     (let s = (if x0 < 0 then ''-'' else '''');
          x = (if x0 < 0 then - x0 else x0);
          n = \<lfloor>x * 10 + 1 / 2\<rfloor>;
          m = digits n;
          m = (if length m \<le> 1 then ''0'' @ m else m)
      in s @ butlast m @ ''.'' @ [last m])"

subsection \<open>\<open>JSON.stringify\<close> of an object literal with string-or-undefined properties\<close>

definition hex_char :: "nat \<Rightarrow> char" where
  "hex_char d = ''0123456789abcdef'' ! d"

definition json_escape :: "char \<Rightarrow> string" where
  "json_escape c =
     (if c = CHR 0x08 then [CHR 0x5C, CHR ''b'']
      else if c = CHR 0x09 then [CHR 0x5C, CHR ''t'']
      else if c = CHR 0x0A then [CHR 0x5C, CHR ''n'']
      else if c = CHR 0x0C then [CHR 0x5C, CHR ''f'']
      else if c = CHR 0x0D then [CHR 0x5C, CHR ''r'']
      else if c = CHR 0x22 then [CHR 0x5C, CHR 0x22]
      else if c = CHR 0x5C then [CHR 0x5C, CHR 0x5C]
      else if (of_char c :: nat) < 32
        then [CHR 0x5C, CHR ''u'', CHR ''0'', CHR ''0'',
              hex_char (of_char c div 16), hex_char (of_char c mod 16)]
      else [c])"

definition json_quote :: "string \<Rightarrow> string" where
  "json_quote s = [CHR 0x22] @ concat (map json_escape s) @ [CHR 0x22]"

text \<open>
  An object literal is the list of its properties in source order; a property whose
  value is \<open>undefined\<close> is left out of the JSON text.
\<close>

type_synonym js_object = "(string \<times> string option) list"

fun json_members :: "js_object \<Rightarrow> string list" where
  "json_members [] = []"
| "json_members ((k, None) # ps) = json_members ps"
| "json_members ((k, Some v) # ps) = (json_quote k @ '':'' @ json_quote v) # json_members ps"

fun join_comma :: "string list \<Rightarrow> string" where
  "join_comma [] = []"
| "join_comma [x] = x"
| "join_comma (x # y # ys) = x @ '','' @ join_comma (y # ys)"

definition JSON_stringify :: "js_object \<Rightarrow> string" where
  "JSON_stringify obj = ''{'' @ join_comma (json_members obj) @ ''}''"

text \<open>Reading a property: \<open>undefined\<close> when the object has no such key.\<close>

definition get_prop :: "js_object \<Rightarrow> string \<Rightarrow> string option" where
  "get_prop obj k = (case map_of obj k of None \<Rightarrow> None | Some v \<Rightarrow> v)"

section \<open>Requests, the response in flight and the process\<close>

record socket =
  remoteAddress :: "string option"

text \<open>
  The fields of \<open>req\<close> that the two middlewares read; \<open>req_method\<close> is \<open>req.method\<close>.
\<close>

record request =
  headers :: "string \<rightharpoonup> string"
  ip :: "string option"
  socket :: "socket option"
  req_method :: string
  originalUrl :: "string option"
  url :: string

text \<open>
  The arrow function that \<open>accessLogger\<close> hands to \<open>res.on("finish", ...)\<close> closes over
  \<open>req\<close> and \<open>start\<close>; the closure is kept as data and run when the event is emitted.
\<close>

datatype listener = AccessFinish request "64 word"

text \<open>What the process does that can be observed from outside, in the order it does it.\<close>

datatype event =
    ResOnFinish
  | NextCalled
  | ConsoleLog string
  | RouteHandler
  | FsAppendFile string string
  | ConsoleError string

text \<open>
  \<open>hrtime\<close> is what \<open>process.hrtime.bigint()\<close> reads now (unsigned 64-bit nanoseconds)
  and \<open>date_iso\<close> what \<open>new Date().toISOString()\<close> returns now; \<open>statusCode\<close> and
  \<open>finish_listeners\<close> belong to the response object \<open>res\<close> of the request in flight;
  \<open>files\<close> holds the content of each file by path.
\<close>

record proc =
  hrtime :: "64 word"
  date_iso :: string
  statusCode :: nat
  finish_listeners :: "listener list"
  files :: "string \<rightharpoonup> string"
  events :: "event list"

definition log_event :: "event \<Rightarrow> proc \<Rightarrow> proc" where
  "log_event e s = s\<lparr>events := events s @ [e]\<rparr>"

definition console_log :: "string \<Rightarrow> proc \<Rightarrow> proc" where
  "console_log line s = log_event (ConsoleLog line) s"

text \<open>\<open>console.error(a, b)\<close> prints its arguments separated by one space.\<close>

definition console_error :: "string \<Rightarrow> string \<Rightarrow> proc \<Rightarrow> proc" where
  "console_error a b s = log_event (ConsoleError (a @ '' '' @ b)) s"

definition res_on_finish :: "listener \<Rightarrow> proc \<Rightarrow> proc" where
  "res_on_finish l s =
     log_event ResOnFinish (s\<lparr>finish_listeners := finish_listeners s @ [l]\<rparr>)"

text \<open>\<open>fs.appendFile(path, data, callback)\<close> only issues the write; it completes later.\<close>

definition fs_appendFile :: "string \<Rightarrow> string \<Rightarrow> proc \<Rightarrow> proc" where
  "fs_appendFile p data s = log_event (FsAppendFile p data) s"

section \<open>request-logs.js\<close>

type_synonym middleware = "request \<Rightarrow> (proc \<Rightarrow> proc) \<Rightarrow> proc \<Rightarrow> proc"

text \<open>The object literal that \<open>requestLog\<close> passes to \<open>JSON.stringify\<close>.\<close>

definition requestLog_object :: "request \<Rightarrow> proc \<Rightarrow> js_object" where
  "requestLog_object req s =
     (let rid = js_or_str (headers req ''x-request-id'') ''no-rid'';
          xff = js_or (headers req ''x-forwarded-for'') (ip req)
      in [(''timestamp'', Some (date_iso s)),
          (''requestId'', Some rid),
          (''ip'', xff),
          (''method'', Some (req_method req)),
          (''path'', originalUrl req),
          (''userAgent'', headers req ''user-agent'')])"

definition requestLog :: middleware where
  "requestLog req next s = next (console_log (JSON_stringify (requestLog_object req s)) s)"

subsection \<open>The same function on properties of any kind\<close>

text \<open>
  \<open>requestLog\<close> above reads properties that are strings or \<open>undefined\<close>, as Node and
  Express deliver them, and on those \<open>JSON.stringify\<close> always returns. The function
  itself takes any object as \<open>req\<close>, and \<open>JSON.stringify\<close> throws a \<open>TypeError\<close> on a
  BigInt. Here a property is \<open>undefined\<close>, a string or a BigInt, an exception is the
  left summand of the result, and the body has, like the source, no \<open>try\<close>.
\<close>

datatype js_value = JUndefined | JString string | JBigInt int

datatype js_error = TypeError string



fun json_members_value :: "(string \<times> js_value) list \<Rightarrow> js_error + string list" where
  "json_members_value [] = Inr []"
| "json_members_value ((k, JUndefined) # ps) = json_members_value ps"
| "json_members_value ((k, JString v) # ps) =
     (case json_members_value ps of
        Inl e \<Rightarrow> Inl e
      | Inr ms \<Rightarrow> Inr ((json_quote k @ '':'' @ json_quote v) # ms))"
| "json_members_value ((k, JBigInt n) # ps) =
     Inl (TypeError ''Do not know how to serialize a BigInt'')"








section \<open>access-logs.js\<close>

definition LOG_DIR :: string where
  "LOG_DIR = ''/usr/src/app/logs''"

text \<open>\<open>path.join(LOG_DIR, "access.log")\<close>\<close>

definition ACCESS_LOG :: string where
  "ACCESS_LOG = LOG_DIR @ ''/'' @ ''access.log''"

text \<open>\<open>Number(process.hrtime.bigint() - start) / 1e6\<close>; BigInt subtraction does not wrap.\<close>

definition durationMs :: "64 word \<Rightarrow> 64 word \<Rightarrow> rat" where
  "durationMs start now = to_double (to_double (of_int (uint now - uint start)) / 1000000)"

text \<open>\<open>req.socket?.remoteAddress\<close>\<close>

definition peer_address :: "request \<Rightarrow> string option" where
  "peer_address req = (case socket req of None \<Rightarrow> None | Some so \<Rightarrow> remoteAddress so)"

definition clientIp :: "request \<Rightarrow> string" where
  "clientIp req =
     (let entry = js_or_str (map_option split_comma_0 (headers req ''x-forwarded-for'')) ''''
      in js_or_str (js_or (Some (js_trim entry)) (peer_address req)) ''unknown'')"

definition access_line :: "request \<Rightarrow> 64 word \<Rightarrow> proc \<Rightarrow> string" where
  "access_line req start s =
     date_iso s @ '' '' @ clientIp req @ '' '' @ req_method req @ '' '' @
     js_or_str (originalUrl req) (url req) @ '' '' @ digits (int (statusCode s)) @ '' '' @
     toFixed1 (durationMs start (hrtime s)) @ ''ms'' @ [CHR 0x0A]"

text \<open>The body of the \<open>finish\<close> listener.\<close>

fun run_listener :: "listener \<Rightarrow> proc \<Rightarrow> proc" where
  "run_listener (AccessFinish req start) s = fs_appendFile ACCESS_LOG (access_line req start s) s"

definition accessLogger :: middleware where
  "accessLogger req next s =
     (let start = hrtime s
      in next (res_on_finish (AccessFinish req start) s))"

text \<open>The callback given to \<open>fs.appendFile\<close>; \<open>err\<close> is \<open>null\<close> or an error with a message.\<close>

definition appendFile_callback :: "string option \<Rightarrow> proc \<Rightarrow> proc" where
  "appendFile_callback err s =
     (case err of None \<Rightarrow> s | Some msg \<Rightarrow> console_error ''access log write failed:'' msg s)"

text \<open>
  When libuv has carried out (or given up) the write issued by \<open>fs.appendFile\<close>, the
  data is at the end of the file if the write succeeded (the file is created when
  missing), and the callback runs with \<open>null\<close> or with the error. A write that failed
  is taken to have left the file as it was.
\<close>

definition appendFile_complete :: "string \<Rightarrow> string \<Rightarrow> string option \<Rightarrow> proc \<Rightarrow> proc" where
  "appendFile_complete p data err s =
     appendFile_callback err
       (case err of
          None \<Rightarrow> s\<lparr>files := (files s)(p \<mapsto> (case files s p of None \<Rightarrow> data | Some old \<Rightarrow> old @ data))\<rparr>
        | Some msg \<Rightarrow> s)"

section \<open>server.js: the middleware stack and the life of one request\<close>

text \<open>\<open>app.use(accessLogger); app.use(requestLog);\<close> in this order.\<close>

definition app_stack :: "middleware list" where
  "app_stack = [accessLogger, requestLog]"

text \<open>
  Express runs the stack in registration order; the \<open>next\<close> it hands to a middleware
  runs the rest of the stack. Each call of \<open>next\<close> is noted in the events.
\<close>

fun dispatch :: "middleware list \<Rightarrow> request \<Rightarrow> (proc \<Rightarrow> proc) \<Rightarrow> proc \<Rightarrow> proc" where
  "dispatch [] req final s = final s"
| "dispatch (m # ms) req final s = m req (\<lambda>s'. dispatch ms req final (log_event NextCalled s')) s"

text \<open>
  What follows the two loggers (body parser, CORS, the routes) is business logic that
  neither logs nor listens on the response: all it does here is run and choose a status.
\<close>

definition route_handler :: "nat \<Rightarrow> proc \<Rightarrow> proc" where
  "route_handler status s = log_event RouteHandler (s\<lparr>statusCode := status\<rparr>)"

text \<open>Node makes a new response object for each request: status 200, no listeners.\<close>

definition new_response :: "proc \<Rightarrow> proc" where
  "new_response s = s\<lparr>statusCode := 200, finish_listeners := []\<rparr>"

definition handle_request :: "request \<Rightarrow> nat \<Rightarrow> proc \<Rightarrow> proc" where
  "handle_request req status s = dispatch app_stack req (route_handler status) (new_response s)"

text \<open>\<open>res.emit("finish")\<close>: the listeners run in the order they were registered.\<close>

definition res_emit_finish :: "proc \<Rightarrow> proc" where
  "res_emit_finish s = fold run_listener (finish_listeners s) s"

text \<open>Time passes: both clocks show new readings.\<close>

definition advance :: "64 word \<Rightarrow> string \<Rightarrow> proc \<Rightarrow> proc" where
  "advance t d s = s\<lparr>hrtime := t, date_iso := d\<rparr>"

text \<open>
  A request either has its response fully sent, and \<open>finish\<close> is emitted, or its
  connection is dropped first, and it never is.
\<close>

datatype outcome = Finished | Aborted

definition request_lifecycle ::
  "request \<Rightarrow> nat \<Rightarrow> 64 word \<Rightarrow> string \<Rightarrow> outcome \<Rightarrow> proc \<Rightarrow> proc" where
  "request_lifecycle req status t d out s =
     (let s1 = advance t d (handle_request req status s)
      in case out of Finished \<Rightarrow> res_emit_finish s1 | Aborted \<Rightarrow> s1)"

subsection \<open>Module initialisation and start-up\<close>

text \<open>
  The file tree, as far as \<open>fs.mkdirSync(LOG_DIR, { recursive: true })\<close> looks at it: a
  path is the list of its components, a node is a regular file or a directory, and a
  directory either lets the process create entries in it or does not.
\<close>

datatype node = File | Dir bool

type_synonym filesys = "string list \<rightharpoonup> node"

datatype fs_error = EEXIST | ENOTDIR | EACCES | ENOENT

text \<open>The components of a path: the non-empty pieces between the slashes.\<close>

fun path_components_from :: "string \<Rightarrow> string \<Rightarrow> string list" where
  "path_components_from cur [] = (if cur = [] then [] else [cur])"
| "path_components_from cur (c # cs) =
     (if c = CHR ''/''
      then (if cur = [] then [] else [cur]) @ path_components_from [] cs
      else path_components_from (cur @ [c]) cs)"

definition path_components :: "string \<Rightarrow> string list" where
  "path_components p = path_components_from [] p"

text \<open>
  Recursive \<open>mkdir\<close> below the directory \<open>cur\<close>: a component that is a directory
  already is entered, a missing one is created when its parent allows it, and a regular
  file in the way is an error (as is a parent that forbids the creation).
\<close>

fun mkdir_walk :: "string list \<Rightarrow> string list \<Rightarrow> filesys \<Rightarrow> fs_error + filesys" where
  "mkdir_walk cur [] fs = Inr fs"
| "mkdir_walk cur (c # cs) fs =
     (case fs (cur @ [c]) of
        Some (Dir w) \<Rightarrow> mkdir_walk (cur @ [c]) cs fs
      | Some File \<Rightarrow> Inl (if cs = [] then EEXIST else ENOTDIR)
      | None \<Rightarrow>
          (case fs cur of
             Some (Dir True) \<Rightarrow> mkdir_walk (cur @ [c]) cs (fs(cur @ [c] \<mapsto> Dir True))
           | Some (Dir False) \<Rightarrow> Inl EACCES
           | Some File \<Rightarrow> Inl ENOTDIR
           | None \<Rightarrow> Inl ENOENT))"

definition mkdirSync_recursive :: "string \<Rightarrow> filesys \<Rightarrow> fs_error + filesys" where
  "mkdirSync_recursive p fs = mkdir_walk [] (path_components p) fs"

text \<open>The top level of access-logs.js, run once when the module is first imported.\<close>

definition access_logs_module :: "filesys \<Rightarrow> fs_error + filesys" where
  "access_logs_module fs = mkdirSync_recursive LOG_DIR fs"

text \<open>
  server.js imports access-logs.js, so that module's top level runs before any statement
  of server.js: an exception there ends the process with \<open>start()\<close> never called.
  Otherwise \<open>start()\<close> connects to the database and only then calls \<open>app.listen\<close>; a
  failed connection is caught and the process exits with code 1.
\<close>

datatype server = Crashed fs_error | Exited nat | Listening filesys

definition boot :: "bool \<Rightarrow> filesys \<Rightarrow> server" where
  "boot mongo_ok fs =
     (case access_logs_module fs of
        Inl e \<Rightarrow> Crashed e
      | Inr fs' \<Rightarrow> if mongo_ok then Listening fs' else Exited 1)"

definition serves_traffic :: "server \<Rightarrow> bool" where
  "serves_traffic sv = (case sv of Listening fs \<Rightarrow> True | _ \<Rightarrow> False)"

text \<open>Every directory on the way from \<open>cur\<close> down the components exists.\<close>

fun dirs_exist :: "string list \<Rightarrow> string list \<Rightarrow> filesys \<Rightarrow> bool" where
  "dirs_exist cur [] fs = True"
| "dirs_exist cur (c # cs) fs =
     (case fs (cur @ [c]) of Some (Dir w) \<Rightarrow> dirs_exist (cur @ [c]) cs fs | _ \<Rightarrow> False)"

section \<open>Reading the event log and the access-log line\<close>

text \<open>The events a step has added to those of the state it started from.\<close>

definition new_events :: "proc \<Rightarrow> proc \<Rightarrow> event list" where
  "new_events s s' = drop (length (events s)) (events s')"

definition is_console_log :: "event \<Rightarrow> bool" where
  "is_console_log e = (case e of ConsoleLog l \<Rightarrow> True | _ \<Rightarrow> False)"

definition is_append :: "event \<Rightarrow> bool" where
  "is_append e = (case e of FsAppendFile p d \<Rightarrow> True | _ \<Rightarrow> False)"

text \<open>The position of the first event that satisfies \<open>P\<close> (the length when none does).\<close>

definition first_index :: "(event \<Rightarrow> bool) \<Rightarrow> event list \<Rightarrow> nat" where
  "first_index P es = length (takeWhile (\<lambda>e. \<not> P e) es)"

text \<open>One or more digits, a point, one digit.\<close>

definition is_fixed1 :: "string \<Rightarrow> bool" where
  "is_fixed1 str =
     (case rev str of
        d # p # i # is \<Rightarrow> is_digit d \<and> p = CHR ''.'' \<and> list_all is_digit (i # is)
      | _ \<Rightarrow> False)"

text \<open>\<open>str.split(c)\<close>: the pieces of \<open>str\<close> between the occurrences of \<open>c\<close>.\<close>

fun split_on :: "char \<Rightarrow> string \<Rightarrow> string list" where
  "split_on c [] = [] # []"
| "split_on c (x # xs) =
     (if x = c then [] # split_on c xs
      else (case split_on c xs of [] \<Rightarrow> [x] # [] | w # ws \<Rightarrow> (x # w) # ws))"

text \<open>A field that can be told apart in the line: no space and no line feed in it.\<close>

definition plain_field :: "string \<Rightarrow> bool" where
  "plain_field f = (CHR '' '' \<notin> set f \<and> CHR 0x0A \<notin> set f)"

text \<open>
  The client address as the specification words it: the first comma-separated entry of
  the forwarded-for header, trimmed of white space, when the header is present and that
  entry is not empty; otherwise the peer address of the transport; otherwise the word
  \<open>unknown\<close>. The entry and the trimming are written here on their own, by recursion
  over the string, not through the functions the code uses.
\<close>

text \<open>The characters before the first comma.\<close>

fun first_entry :: "string \<Rightarrow> string" where
  "first_entry [] = []"
| "first_entry (c # cs) = (if c = CHR '','' then [] else c # first_entry cs)"

text \<open>Without the white space at the front, and without the white space at the end.\<close>

fun strip_leading_ws :: "string \<Rightarrow> string" where
  "strip_leading_ws [] = []"
| "strip_leading_ws (c # cs) = (if is_ws c then strip_leading_ws cs else c # cs)"

fun strip_trailing_ws :: "string \<Rightarrow> string" where
  "strip_trailing_ws [] = []"
| "strip_trailing_ws (c # cs) =
     (if is_ws c \<and> strip_trailing_ws cs = [] then [] else c # strip_trailing_ws cs)"

definition trimmed :: "string \<Rightarrow> string" where
  "trimmed str = strip_trailing_ws (strip_leading_ws str)"

definition peer_or_unknown :: "request \<Rightarrow> string" where
  "peer_or_unknown req = (case peer_address req of None \<Rightarrow> ''unknown'' | Some a \<Rightarrow> a)"

definition clientIp_spec :: "request \<Rightarrow> string" where
  "clientIp_spec req =
     (case headers req ''x-forwarded-for'' of
        None \<Rightarrow> peer_or_unknown req
      | Some h \<Rightarrow>
          if trimmed (first_entry h) = [] then peer_or_unknown req
          else trimmed (first_entry h))"

section \<open>Example inputs\<close>

text \<open>
  A health check from peer 10.0.0.5 that carries a correlation id and no forwarded-for
  header, and a process that has not logged anything yet.
\<close>

definition example_req :: request where
  "example_req =
     \<lparr>headers = [''x-request-id'' \<mapsto> ''abc123'', ''user-agent'' \<mapsto> ''curl/8.14.1''],
      ip = Some ''10.0.0.5'',
      socket = Some \<lparr>remoteAddress = Some ''10.0.0.5''\<rparr>,
      req_method = ''GET'',
      originalUrl = Some ''/api/health'',
      url = ''/api/health''\<rparr>"

definition example_proc :: proc where
  "example_proc =
     \<lparr>hrtime = 1000, date_iso = ''2025-11-04T10:47:26.512Z'', statusCode = 0,
      finish_listeners = [], files = Map.empty, events = []\<rparr>"

text \<open>
  Three file trees: one where \<open>/usr/src\<close> exists and is writable, the same after the
  log directory has been made, and one where \<open>/usr/src\<close> is read-only.
\<close>

definition example_fs :: filesys where
  "example_fs = [Nil \<mapsto> Dir True, [''usr''] \<mapsto> Dir True, [''usr'', ''src''] \<mapsto> Dir True]"

definition example_logs_fs :: filesys where
  "example_logs_fs =
     example_fs([''usr'', ''src'', ''app''] \<mapsto> Dir True,
                [''usr'', ''src'', ''app'', ''logs''] \<mapsto> Dir True)"

definition readonly_fs :: filesys where
  "readonly_fs = [Nil \<mapsto> Dir True, [''usr''] \<mapsto> Dir True, [''usr'', ''src''] \<mapsto> Dir False]"

text \<open>The seven white-space characters below 256, in a row.\<close>

definition white_space :: string where
  "white_space = [CHR 0x09, CHR 0x0A, CHR 0x0B, CHR 0x0C, CHR 0x0D, CHR 0x20, CHR 0xA0]"

text \<open>
  The example request behind a proxy whose forwarded-for entry holds a space, and the
  example request with a BigInt as \<open>req.ip\<close>.
\<close>

definition spaced_req :: request where
  "spaced_req =
     example_req\<lparr>headers := (headers example_req)(''x-forwarded-for'' \<mapsto> ''1.2.3.4 evil, 5.6.7.8'')\<rparr>"


section \<open>One request through the stack\<close>

lemma handle_request_eq:
  "handle_request req status s =
     s\<lparr>statusCode := status,
       finish_listeners := [AccessFinish req (hrtime s)],
       events := events s @ [ResOnFinish, NextCalled,
                   ConsoleLog (JSON_stringify (requestLog_object req s)), NextCalled, RouteHandler]\<rparr>"
  by (simp add: handle_request_def app_stack_def accessLogger_def requestLog_def
      route_handler_def new_response_def res_on_finish_def console_log_def log_event_def
      requestLog_object_def)

lemma lifecycle_finished_eq:
  "request_lifecycle req status t d Finished s =
     s\<lparr>hrtime := t, date_iso := d, statusCode := status,
       finish_listeners := [AccessFinish req (hrtime s)],
       events := events s @ [ResOnFinish, NextCalled,
                   ConsoleLog (JSON_stringify (requestLog_object req s)), NextCalled, RouteHandler,
                   FsAppendFile ACCESS_LOG
                     (access_line req (hrtime s) (advance t d (handle_request req status s)))]\<rparr>"
  by (simp add: request_lifecycle_def handle_request_eq advance_def res_emit_finish_def
      fs_appendFile_def log_event_def)

lemma lifecycle_aborted_eq:
  "request_lifecycle req status t d Aborted s =
     s\<lparr>hrtime := t, date_iso := d, statusCode := status,
       finish_listeners := [AccessFinish req (hrtime s)],
       events := events s @ [ResOnFinish, NextCalled,
                   ConsoleLog (JSON_stringify (requestLog_object req s)), NextCalled, RouteHandler]\<rparr>"
  by (simp add: request_lifecycle_def handle_request_eq advance_def)

lemma example_line:
  \<open>JSON_stringify (requestLog_object example_req example_proc) =
     ''{"timestamp":"2025-11-04T10:47:26.512Z","requestId":"abc123","ip":"10.0.0.5","method":"GET","path":"/api/health","userAgent":"curl/8.14.1"}''\<close>
  by (simp add: JSON_stringify_def requestLog_object_def example_req_def example_proc_def
      js_or_def js_or_str_def json_quote_def json_escape_def)

lemma example_access_line:
  "access_line example_req 1000
     (advance 1201000 ''2025-11-04T10:47:26.513Z'' (handle_request example_req 200 example_proc)) =
   ''2025-11-04T10:47:26.513Z 10.0.0.5 GET /api/health 200 1.2ms'' @ [CHR 0x0A]"
  by code_simp

text \<open>
  Claim C1, as amended. The stack is \<open>[accessLogger, requestLog]\<close>, so for every request
  the \<open>finish\<close> listener is registered first and the structured line is written after
  it: the two events come in the order in which the middlewares were registered.
\<close>

theorem registration_precedes_structured_log:
  "app_stack = [accessLogger, requestLog] \<and>
   new_events s (handle_request req status s) =
     [ResOnFinish, NextCalled, ConsoleLog (JSON_stringify (requestLog_object req s)),
      NextCalled, RouteHandler] \<and>
   first_index (\<lambda>e. e = ResOnFinish) (new_events s (handle_request req status s))
     < first_index is_console_log (new_events s (handle_request req status s))"
  by (simp add: app_stack_def handle_request_eq new_events_def first_index_def is_console_log_def)

text \<open>The example request: its five events, the registration first.\<close>

theorem registration_precedes_structured_log_witness:
  \<open>new_events example_proc (handle_request example_req 200 example_proc) =
     [ResOnFinish, NextCalled,
      ConsoleLog ''{"timestamp":"2025-11-04T10:47:26.512Z","requestId":"abc123","ip":"10.0.0.5","method":"GET","path":"/api/health","userAgent":"curl/8.14.1"}'',
      NextCalled, RouteHandler]\<close>
  using registration_precedes_structured_log [of example_proc example_req 200]
  by (simp add: example_line)

text \<open>
  Claim C1 as first stated (the structured line before the registration) fails on the
  example request: the line is the third event, the registration the first.
\<close>

theorem structured_log_not_before_registration:
  "\<not> first_index is_console_log
        (new_events example_proc (handle_request example_req 200 example_proc))
      < first_index (\<lambda>e. e = ResOnFinish)
        (new_events example_proc (handle_request example_req 200 example_proc))"
  by (simp add: handle_request_eq new_events_def first_index_def is_console_log_def)

text \<open>
  Claim C2. Every request adds exactly one structured line, written before the route
  handler runs. If the response finishes, exactly one append of an access-log line is
  issued, after the handler, and a successful write puts exactly that line at the end of
  the file; if the connection is aborted, no append is issued.
\<close>

theorem one_log_record_one_access_line:
  "new_events s (handle_request req status s) =
     [ResOnFinish, NextCalled, ConsoleLog (JSON_stringify (requestLog_object req s)),
      NextCalled, RouteHandler] \<and>
   new_events s (request_lifecycle req status t d Finished s) =
     new_events s (handle_request req status s) @
     [FsAppendFile ACCESS_LOG
        (access_line req (hrtime s) (advance t d (handle_request req status s)))] \<and>
   new_events s (request_lifecycle req status t d Aborted s) =
     new_events s (handle_request req status s) \<and>
   length (filter is_console_log (new_events s (request_lifecycle req status t d out s))) = 1 \<and>
   first_index is_console_log (new_events s (request_lifecycle req status t d out s))
     < first_index (\<lambda>e. e = RouteHandler) (new_events s (request_lifecycle req status t d out s)) \<and>
   length (filter is_append (new_events s (request_lifecycle req status t d out s))) =
     (case out of Finished \<Rightarrow> 1 | Aborted \<Rightarrow> 0) \<and>
   files (appendFile_complete ACCESS_LOG line None s') ACCESS_LOG =
     Some ((case files s' ACCESS_LOG of None \<Rightarrow> [] | Some old \<Rightarrow> old) @ line)"
proof -
  have h: "new_events s (handle_request req status s) =
     [ResOnFinish, NextCalled, ConsoleLog (JSON_stringify (requestLog_object req s)),
      NextCalled, RouteHandler]"
    by (simp add: handle_request_eq new_events_def)
  have f: "new_events s (request_lifecycle req status t d Finished s) =
     new_events s (handle_request req status s) @
     [FsAppendFile ACCESS_LOG
        (access_line req (hrtime s) (advance t d (handle_request req status s)))]"
    by (simp add: h) (simp add: lifecycle_finished_eq new_events_def)
  have a: "new_events s (request_lifecycle req status t d Aborted s) =
     new_events s (handle_request req status s)"
    by (simp add: h) (simp add: lifecycle_aborted_eq new_events_def)
  have c: "length (filter is_console_log (new_events s (request_lifecycle req status t d out s))) = 1"
    by (cases out) (simp_all add: f a h is_console_log_def)
  have o: "first_index is_console_log (new_events s (request_lifecycle req status t d out s))
     < first_index (\<lambda>e. e = RouteHandler) (new_events s (request_lifecycle req status t d out s))"
    by (cases out) (simp_all add: f a h is_console_log_def first_index_def)
  have n: "length (filter is_append (new_events s (request_lifecycle req status t d out s))) =
     (case out of Finished \<Rightarrow> 1 | Aborted \<Rightarrow> 0)"
    by (cases out) (simp_all add: f a h is_append_def)
  have w: "files (appendFile_complete ACCESS_LOG line None s') ACCESS_LOG =
     Some ((case files s' ACCESS_LOG of None \<Rightarrow> [] | Some old \<Rightarrow> old) @ line)"
    by (simp add: appendFile_complete_def appendFile_callback_def split: option.split)
  from h f a c o n w show ?thesis by blast
qed

text \<open>
  The example request, finishing with status 200 after 1.2 ms, and the same request
  aborted.
\<close>

theorem one_log_record_one_access_line_witness:
  \<open>new_events example_proc
     (request_lifecycle example_req 200 1201000 ''2025-11-04T10:47:26.513Z'' Finished example_proc) =
     [ResOnFinish, NextCalled,
      ConsoleLog ''{"timestamp":"2025-11-04T10:47:26.512Z","requestId":"abc123","ip":"10.0.0.5","method":"GET","path":"/api/health","userAgent":"curl/8.14.1"}'',
      NextCalled, RouteHandler,
      FsAppendFile ''/usr/src/app/logs/access.log''
        (''2025-11-04T10:47:26.513Z 10.0.0.5 GET /api/health 200 1.2ms'' @ [CHR 0x0A])] \<and>
   new_events example_proc
     (request_lifecycle example_req 200 1201000 ''2025-11-04T10:47:26.513Z'' Aborted example_proc) =
     [ResOnFinish, NextCalled,
      ConsoleLog ''{"timestamp":"2025-11-04T10:47:26.512Z","requestId":"abc123","ip":"10.0.0.5","method":"GET","path":"/api/health","userAgent":"curl/8.14.1"}'',
      NextCalled, RouteHandler]\<close>
proof -
  have t: "hrtime example_proc = 1000"
    by (simp add: example_proc_def)
  show ?thesis
    using one_log_record_one_access_line
      [of example_proc example_req 200 1201000 "''2025-11-04T10:47:26.513Z''"]
    by (simp add: example_line example_access_line t ACCESS_LOG_def LOG_DIR_def)
qed

section \<open>The correlation id\<close>

text \<open>
  Claim C3, as amended. The \<open>requestId\<close> of the structured log is the value of the
  \<open>x-request-id\<close> header when the header is present and not empty, and the sentinel
  \<open>no-rid\<close> when the header is absent or empty; it is never anything but the header
  value or the sentinel.
\<close>

theorem requestId_header_or_sentinel:
  "(headers req ''x-request-id'' = Some v \<and> v \<noteq> [] \<longrightarrow>
      get_prop (requestLog_object req s) ''requestId'' = Some v) \<and>
   (headers req ''x-request-id'' = None \<or> headers req ''x-request-id'' = Some [] \<longrightarrow>
      get_prop (requestLog_object req s) ''requestId'' = Some ''no-rid'') \<and>
   (get_prop (requestLog_object req s) ''requestId'' = headers req ''x-request-id'' \<or>
    get_prop (requestLog_object req s) ''requestId'' = Some ''no-rid'')"
  by (auto simp: requestLog_object_def get_prop_def js_or_str_def split: option.splits)

text \<open>The example request with its header, with no headers at all, and with an empty header.\<close>

theorem requestId_header_or_sentinel_witness:
  "get_prop (requestLog_object example_req example_proc) ''requestId'' = Some ''abc123'' \<and>
   get_prop (requestLog_object (example_req\<lparr>headers := Map.empty\<rparr>) example_proc) ''requestId''
     = Some ''no-rid'' \<and>
   get_prop (requestLog_object (example_req\<lparr>headers := [''x-request-id'' \<mapsto> []]\<rparr>) example_proc)
     ''requestId'' = Some ''no-rid''"
  using requestId_header_or_sentinel [of example_req "''abc123''" example_proc]
    requestId_header_or_sentinel [of "example_req\<lparr>headers := Map.empty\<rparr>" "''abc123''" example_proc]
    requestId_header_or_sentinel
      [of "example_req\<lparr>headers := [''x-request-id'' \<mapsto> []]\<rparr>" "''abc123''" example_proc]
  by (simp add: example_req_def)

text \<open>
  Claim C3 as first stated fails for a header that is present with an empty value: the
  \<open>requestId\<close> is then not the header value.
\<close>

theorem empty_request_id_counterexample:
  "headers (example_req\<lparr>headers := (headers example_req)(''x-request-id'' \<mapsto> [])\<rparr>)
     ''x-request-id'' = Some [] \<and>
   get_prop (requestLog_object
       (example_req\<lparr>headers := (headers example_req)(''x-request-id'' \<mapsto> [])\<rparr>) example_proc)
     ''requestId'' \<noteq> Some []"
  by (simp add: requestLog_object_def get_prop_def js_or_str_def)

text \<open>
  Claim C9. A header \<open>x-request-id\<close> that is present but empty gives the sentinel
  \<open>no-rid\<close>, the same \<open>requestId\<close> as the request without the header.
\<close>

theorem empty_request_id_is_sentinel:
  "headers req ''x-request-id'' = Some [] \<Longrightarrow>
   get_prop (requestLog_object req s) ''requestId'' = Some ''no-rid'' \<and>
   get_prop (requestLog_object req s) ''requestId'' =
     get_prop (requestLog_object (req\<lparr>headers := (headers req)(''x-request-id'' := None)\<rparr>) s)
       ''requestId''"
  by (simp add: requestLog_object_def get_prop_def js_or_str_def)

text \<open>A request whose only header is an empty \<open>x-request-id\<close>.\<close>

theorem empty_request_id_is_sentinel_witness:
  "get_prop (requestLog_object (example_req\<lparr>headers := [''x-request-id'' \<mapsto> []]\<rparr>) example_proc)
     ''requestId'' = Some ''no-rid''"
  using empty_request_id_is_sentinel
    [of "example_req\<lparr>headers := [''x-request-id'' \<mapsto> []]\<rparr>" example_proc]
  by simp

section \<open>The client address\<close>

lemma set_js_trim: "set (js_trim str) \<subseteq> set str"
  unfolding js_trim_def by (metis set_dropWhileD set_rev subsetI)

lemma split_comma_0_no_comma: "CHR '','' \<notin> set (split_comma_0 h)"
  unfolding split_comma_0_def by (auto dest: set_takeWhileD)

lemma js_trim_Nil: "js_trim [] = []"
  by (simp add: js_trim_def)

lemma clientIp_cases:
  "clientIp req =
     (if js_trim (js_or_str (map_option split_comma_0 (headers req ''x-forwarded-for'')) []) \<noteq> []
      then js_trim (js_or_str (map_option split_comma_0 (headers req ''x-forwarded-for'')) [])
      else js_or_str (peer_address req) ''unknown'')"
  by (simp add: clientIp_def js_or_def js_or_str_def Let_def split: option.splits)

lemma first_entry_trimmed:
  "js_trim (js_or_str (map_option split_comma_0 (headers req ''x-forwarded-for'')) []) =
     (case headers req ''x-forwarded-for'' of None \<Rightarrow> [] | Some h \<Rightarrow> js_trim (split_comma_0 h))"
  by (simp add: js_or_str_def js_trim_Nil split: option.splits)

lemma split_comma_0_first_entry: "split_comma_0 h = first_entry h"
  by (induction h) (simp_all add: split_comma_0_def)

lemma dropWhile_strip_leading: "dropWhile is_ws str = strip_leading_ws str"
  by (induction str) simp_all

lemma strip_trailing_rev: "rev (dropWhile is_ws (rev str)) = strip_trailing_ws str"
proof (induction str)
  case Nil
  then show ?case by simp
next
  case (Cons c cs)
  have e: "strip_trailing_ws cs = [] \<longleftrightarrow> (\<forall>x\<in>set cs. is_ws x)"
    by (simp add: dropWhile_eq_Nil_conv flip: Cons.IH)
  have ih: "dropWhile is_ws (rev cs) = rev (strip_trailing_ws cs)"
    using Cons.IH by (metis rev_rev_ident)
  show ?case
  proof (cases "\<forall>x\<in>set cs. is_ws x")
    case True
    then show ?thesis using e by (simp add: dropWhile_append)
  next
    case False
    then show ?thesis using e ih by (simp add: dropWhile_append)
  qed
qed

lemma js_trim_trimmed: "js_trim str = trimmed str"
  by (simp add: js_trim_def trimmed_def strip_trailing_rev flip: dropWhile_strip_leading)

lemma first_entry_shape:
  "CHR '','' \<notin> set (first_entry h) \<and>
   (h = first_entry h \<or> (\<exists>rest. h = first_entry h @ CHR '','' # rest))"
  by (induction h) auto

lemma trimmed_shape:
  "\<exists>l r. str = l @ trimmed str @ r \<and> list_all is_ws l \<and> list_all is_ws r \<and>
         (trimmed str = [] \<or> \<not> is_ws (hd (trimmed str)) \<and> \<not> is_ws (last (trimmed str)))"
proof -
  define d where "d = dropWhile is_ws str"
  define t where "t = rev (dropWhile is_ws (rev d))"
  have t: "t = trimmed str"
    by (simp add: t_def d_def flip: js_trim_trimmed js_trim_def)
  have s: "str = takeWhile is_ws str @ d"
    by (simp add: d_def)
  have d: "d = t @ rev (takeWhile is_ws (rev d))"
    unfolding t_def by (metis rev_append rev_rev_ident takeWhile_dropWhile_id)
  have l: "list_all is_ws (takeWhile is_ws str)"
    by (auto simp: list_all_iff dest: set_takeWhileD)
  have r: "list_all is_ws (rev (takeWhile is_ws (rev d)))"
    by (auto simp: list_all_iff dest: set_takeWhileD)
  have ends: "\<not> is_ws (hd t) \<and> \<not> is_ws (last t)" if ne: "t \<noteq> []"
  proof -
    from ne have n1: "dropWhile is_ws (rev d) \<noteq> []" by (simp add: t_def)
    then have "\<not> is_ws (hd (dropWhile is_ws (rev d)))" by (rule hd_dropWhile)
    then have la: "\<not> is_ws (last t)" using n1 by (simp add: t_def last_rev)
    from ne d have dn: "d \<noteq> []" by auto
    then have "\<not> is_ws (hd d)" unfolding d_def by (rule hd_dropWhile)
    moreover have "hd d = hd t" using ne d by (metis hd_append2)
    ultimately show ?thesis using la by simp
  qed
  have "str = takeWhile is_ws str @ t @ rev (takeWhile is_ws (rev d))"
    using s d by simp
  with l r ends show ?thesis
    unfolding t [symmetric] by blast
qed

lemma example_trim:
  "js_trim (split_comma_0 (white_space @ ''1.2.3.4'' @ white_space @ '', 5.6.7.8''))
     = ''1.2.3.4''"
  by (simp add: split_comma_0_def js_trim_def is_ws_def white_space_def)

lemma example_no_trim:
  "js_trim (split_comma_0 (CHR 0x85 # ''1.2.3.4'')) = CHR 0x85 # ''1.2.3.4''"
  by (simp add: split_comma_0_def js_trim_def is_ws_def)

text \<open>
  Claim C4. For every request whose peer address is not the empty string, the client
  address of the access log is the address the specification describes: the first
  comma-separated entry of the forwarded-for header, trimmed of white space, when the
  header is present and that entry is not empty, else the peer address, else
  \<open>unknown\<close>. When it comes from the header, it lies in the part of the header before
  the first comma, between white space only, and neither begins nor ends with white
  space. The header \<open>1.2.3.4, 5.6.7.8\<close> gives \<open>1.2.3.4\<close>, with or without white space
  around the first entry; a character that is not white space, such as NEL, stays.
\<close>

theorem clientIp_fallback_chain:
  assumes "peer_address req \<noteq> Some []"
  shows "clientIp req = clientIp_spec req \<and>
         clientIp (req\<lparr>headers := (headers req)(''x-forwarded-for'' \<mapsto> ''1.2.3.4, 5.6.7.8'')\<rparr>)
           = ''1.2.3.4'' \<and>
         clientIp (req\<lparr>headers := (headers req)(''x-forwarded-for'' \<mapsto>
             white_space @ ''1.2.3.4'' @ white_space @ '', 5.6.7.8'')\<rparr>)
           = ''1.2.3.4'' \<and>
         clientIp (req\<lparr>headers := (headers req)(''x-forwarded-for'' \<mapsto> CHR 0x85 # ''1.2.3.4'')\<rparr>)
           = CHR 0x85 # ''1.2.3.4'' \<and>
         (\<forall>h. headers req ''x-forwarded-for'' = Some h \<and> trimmed (first_entry h) \<noteq> [] \<longrightarrow>
            CHR '','' \<notin> set (first_entry h) \<and>
            (h = first_entry h \<or> (\<exists>rest. h = first_entry h @ CHR '','' # rest)) \<and>
            (\<exists>l r. first_entry h = l @ clientIp req @ r \<and> list_all is_ws l \<and> list_all is_ws r) \<and>
            \<not> is_ws (hd (clientIp req)) \<and> \<not> is_ws (last (clientIp req)))"
proof -
  have eq: "clientIp req = clientIp_spec req"
    using assms
    by (auto simp: clientIp_cases first_entry_trimmed clientIp_spec_def peer_or_unknown_def
        js_or_str_def trimmed_def js_trim_trimmed split_comma_0_first_entry split: option.splits)
  have "js_trim (split_comma_0 ''1.2.3.4, 5.6.7.8'') = ''1.2.3.4''"
    by (simp add: split_comma_0_def js_trim_def is_ws_def)
  then have ex1: "clientIp (req\<lparr>headers := (headers req)(''x-forwarded-for'' \<mapsto> ''1.2.3.4, 5.6.7.8'')\<rparr>)
      = ''1.2.3.4''"
    by (simp add: clientIp_cases js_or_str_def)
  have ex2: "clientIp (req\<lparr>headers := (headers req)(''x-forwarded-for'' \<mapsto>
             white_space @ ''1.2.3.4'' @ white_space @ '', 5.6.7.8'')\<rparr>)
           = ''1.2.3.4''"
    using example_trim by (simp add: clientIp_cases js_or_str_def white_space_def)
  have ex3: "clientIp (req\<lparr>headers := (headers req)(''x-forwarded-for'' \<mapsto> CHR 0x85 # ''1.2.3.4'')\<rparr>)
           = CHR 0x85 # ''1.2.3.4''"
    using example_no_trim by (simp add: clientIp_cases js_or_str_def)
  have sh: "CHR '','' \<notin> set (first_entry h) \<and>
            (h = first_entry h \<or> (\<exists>rest. h = first_entry h @ CHR '','' # rest)) \<and>
            (\<exists>l r. first_entry h = l @ clientIp req @ r \<and> list_all is_ws l \<and> list_all is_ws r) \<and>
            \<not> is_ws (hd (clientIp req)) \<and> \<not> is_ws (last (clientIp req))"
    if x: "headers req ''x-forwarded-for'' = Some h" and ne: "trimmed (first_entry h) \<noteq> []" for h
  proof -
    from x ne have c: "clientIp req = trimmed (first_entry h)"
      by (simp add: eq clientIp_spec_def)
    from trimmed_shape [of "first_entry h"] ne first_entry_shape [of h] show ?thesis
      unfolding c by blast
  qed
  from eq ex1 ex2 ex3 sh show ?thesis by blast
qed

text \<open>
  The example request (no header: the peer address), the same without a socket
  (\<open>unknown\<close>), with a two-entry header (its first entry), with every white-space
  character around the first entry, and with NEL before it.
\<close>

theorem clientIp_fallback_chain_witness:
  "clientIp example_req = ''10.0.0.5'' \<and>
   clientIp (example_req\<lparr>socket := None\<rparr>) = ''unknown'' \<and>
   clientIp (example_req\<lparr>headers := (headers example_req)(''x-forwarded-for'' \<mapsto> ''1.2.3.4, 5.6.7.8'')\<rparr>)
     = ''1.2.3.4'' \<and>
   clientIp (example_req\<lparr>headers := (headers example_req)(''x-forwarded-for'' \<mapsto>
       white_space @ ''1.2.3.4'' @ white_space @ '', 5.6.7.8'')\<rparr>)
     = ''1.2.3.4'' \<and>
   clientIp (example_req\<lparr>headers := (headers example_req)(''x-forwarded-for'' \<mapsto>
       CHR 0x85 # ''1.2.3.4'')\<rparr>)
     = CHR 0x85 # ''1.2.3.4''"
proof -
  have 1: "peer_address example_req \<noteq> Some []"
    by (simp add: example_req_def peer_address_def)
  have 2: "peer_address (example_req\<lparr>socket := None\<rparr>) \<noteq> Some []"
    by (simp add: peer_address_def)
  have 3: "clientIp_spec example_req = ''10.0.0.5''"
    by (simp add: clientIp_spec_def peer_or_unknown_def peer_address_def example_req_def)
  have 4: "clientIp_spec (example_req\<lparr>socket := None\<rparr>) = ''unknown''"
    by (simp add: clientIp_spec_def peer_or_unknown_def peer_address_def example_req_def)
  from clientIp_fallback_chain [OF 1] clientIp_fallback_chain [OF 2] show ?thesis
    unfolding 3 4 by blast
qed

text \<open>
  Claim C10, as amended. For a request with a non-empty \<open>x-forwarded-for\<close> header the
  \<open>ip\<close> of the structured log is the whole header value; when that value contains a
  comma (and the peer address does not), the client address of the access log differs
  from it. A header that is present but empty is treated as absent: the \<open>ip\<close> is then
  \<open>req.ip\<close>, as for the request without the header.
\<close>

theorem structured_ip_is_whole_header:
  "(headers req ''x-forwarded-for'' = Some h \<and> h \<noteq> [] \<longrightarrow>
      get_prop (requestLog_object req s) ''ip'' = Some h \<and>
      (CHR '','' \<in> set h \<and> CHR '','' \<notin> set (peer_or_unknown req) \<longrightarrow> clientIp req \<noteq> h)) \<and>
   (headers req ''x-forwarded-for'' = Some [] \<longrightarrow>
      get_prop (requestLog_object req s) ''ip'' = ip req \<and>
      get_prop (requestLog_object req s) ''ip'' =
        get_prop (requestLog_object (req\<lparr>headers := (headers req)(''x-forwarded-for'' := None)\<rparr>) s)
          ''ip'')"
proof -
  have a: "get_prop (requestLog_object req s) ''ip'' = Some h"
    if "headers req ''x-forwarded-for'' = Some h" "h \<noteq> []"
    using that by (simp add: requestLog_object_def get_prop_def js_or_def)
  have b: "clientIp req \<noteq> h"
    if x: "headers req ''x-forwarded-for'' = Some h"
      and c: "CHR '','' \<in> set h" and p: "CHR '','' \<notin> set (peer_or_unknown req)"
  proof -
    have "CHR '','' \<notin> set (js_trim (split_comma_0 h))"
      using set_js_trim [of "split_comma_0 h"] split_comma_0_no_comma [of h] by blast
    then have "CHR '','' \<notin> set (clientIp req)"
      using x p
      by (auto simp: clientIp_cases first_entry_trimmed peer_or_unknown_def js_or_str_def
          split: option.splits if_splits)
    with c show ?thesis by auto
  qed
  have e: "get_prop (requestLog_object req s) ''ip'' = ip req \<and>
      get_prop (requestLog_object req s) ''ip'' =
        get_prop (requestLog_object (req\<lparr>headers := (headers req)(''x-forwarded-for'' := None)\<rparr>) s)
          ''ip''"
    if "headers req ''x-forwarded-for'' = Some []"
    using that by (simp add: requestLog_object_def get_prop_def js_or_def)
  from a b e show ?thesis by blast
qed

text \<open>The example request behind two proxies, and with an empty header.\<close>

theorem structured_ip_is_whole_header_witness:
  "get_prop (requestLog_object
       (example_req\<lparr>headers := [''x-forwarded-for'' \<mapsto> ''1.2.3.4, 5.6.7.8'']\<rparr>) example_proc) ''ip''
     = Some ''1.2.3.4, 5.6.7.8'' \<and>
   clientIp (example_req\<lparr>headers := [''x-forwarded-for'' \<mapsto> ''1.2.3.4, 5.6.7.8'']\<rparr>)
     \<noteq> ''1.2.3.4, 5.6.7.8'' \<and>
   get_prop (requestLog_object
       (example_req\<lparr>headers := [''x-forwarded-for'' \<mapsto> []]\<rparr>) example_proc) ''ip''
     = Some ''10.0.0.5''"
  using structured_ip_is_whole_header
    [of "example_req\<lparr>headers := [''x-forwarded-for'' \<mapsto> ''1.2.3.4, 5.6.7.8'']\<rparr>"
        "''1.2.3.4, 5.6.7.8''" example_proc]
    structured_ip_is_whole_header
    [of "example_req\<lparr>headers := [''x-forwarded-for'' \<mapsto> []]\<rparr>" "[]" example_proc]
  by (simp add: peer_or_unknown_def peer_address_def example_req_def)

text \<open>
  Claim C10 as first stated fails for a header that is present with an empty value: the
  \<open>ip\<close> of the structured log is then \<open>req.ip\<close>, not the header value.
\<close>

theorem structured_ip_empty_header_counterexample:
  "headers (example_req\<lparr>headers := [''x-forwarded-for'' \<mapsto> []]\<rparr>) ''x-forwarded-for'' = Some [] \<and>
   get_prop (requestLog_object
       (example_req\<lparr>headers := [''x-forwarded-for'' \<mapsto> []]\<rparr>) example_proc) ''ip''
     = Some ''10.0.0.5''"
  by (simp add: requestLog_object_def get_prop_def js_or_def example_req_def)

section \<open>Control flow and failures\<close>






lemma json_members_value_error:
  "json_members_value obj = Inl e \<Longrightarrow> e = TypeError ''Do not know how to serialize a BigInt''"
proof (induction obj)
  case Nil
  then show ?case by simp
next
  case (Cons p ps)
  obtain k v where p: "p = (k, v)" by (cases p)
  with Cons show ?case by (cases v) (auto split: sum.splits)
qed




text \<open>
  Claim C7. When the append fails, the callback writes one line to the error console and
  nothing else changes: the file, the response and its listeners are as before, and no
  further append is issued.
\<close>

theorem append_failure_only_reported:
  "appendFile_complete p data (Some msg) s =
     s\<lparr>events := events s @ [ConsoleError (''access log write failed: '' @ msg)]\<rparr>"
  by (simp add: appendFile_complete_def appendFile_callback_def console_error_def log_event_def)

text \<open>A full disk while the example process appends a line.\<close>

theorem append_failure_only_reported_witness:
  "appendFile_complete ACCESS_LOG ''line'' (Some ''ENOSPC: no space left on device'') example_proc =
     example_proc\<lparr>events := [ConsoleError ''access log write failed: ENOSPC: no space left on device'']\<rparr>"
  using append_failure_only_reported
    [of ACCESS_LOG "''line''" "''ENOSPC: no space left on device''" example_proc]
  by (simp add: example_proc_def)

section \<open>The log directory\<close>

lemma mkdir_walk_keeps:
  "mkdir_walk cur cs fs = Inr fs' \<Longrightarrow> fs p = Some n \<Longrightarrow> fs' p = Some n"
proof (induction cs arbitrary: cur fs)
  case Nil
  then show ?case by simp
next
  case (Cons c cs)
  show ?case
  proof (cases "fs (cur @ [c])")
    case None
    with Cons.prems have r: "mkdir_walk (cur @ [c]) cs (fs(cur @ [c] \<mapsto> Dir True)) = Inr fs'"
      by (auto split: option.splits node.splits bool.splits)
    have "(fs(cur @ [c] \<mapsto> Dir True)) p = Some n"
      using Cons.prems(2) None by auto
    with Cons.IH [OF r] show ?thesis .
  next
    case (Some nd)
    with Cons.prems have r: "mkdir_walk (cur @ [c]) cs fs = Inr fs'"
      by (auto split: node.splits)
    from Cons.IH [OF r Cons.prems(2)] show ?thesis .
  qed
qed

lemma mkdir_walk_step:
  assumes "mkdir_walk cur (c # cs) fs = Inr fs'"
  shows "\<exists>fs1 w. mkdir_walk (cur @ [c]) cs fs1 = Inr fs' \<and> fs1 (cur @ [c]) = Some (Dir w)"
proof (cases "fs (cur @ [c])")
  case None
  with assms have "mkdir_walk (cur @ [c]) cs (fs(cur @ [c] \<mapsto> Dir True)) = Inr fs'"
    by (auto split: option.splits node.splits bool.splits)
  then show ?thesis by (intro exI [of _ "fs(cur @ [c] \<mapsto> Dir True)"] exI [of _ True]) simp
next
  case (Some nd)
  with assms obtain w where "nd = Dir w" and "mkdir_walk (cur @ [c]) cs fs = Inr fs'"
    by (auto split: node.splits)
  with Some show ?thesis by auto
qed

lemma mkdir_walk_idem:
  "mkdir_walk cur cs fs = Inr fs' \<Longrightarrow> mkdir_walk cur cs fs' = Inr fs'"
proof (induction cs arbitrary: cur fs)
  case Nil
  then show ?case by simp
next
  case (Cons c cs)
  from mkdir_walk_step [OF Cons.prems] obtain fs1 w
    where r: "mkdir_walk (cur @ [c]) cs fs1 = Inr fs'" and d: "fs1 (cur @ [c]) = Some (Dir w)"
    by blast
  from mkdir_walk_keeps [OF r d] Cons.IH [OF r] show ?case by simp
qed

lemma mkdir_walk_present:
  "dirs_exist cur cs fs \<Longrightarrow> mkdir_walk cur cs fs = Inr fs"
  by (induction cs arbitrary: cur) (auto split: option.splits node.splits)

lemma mkdir_walk_makes:
  "mkdir_walk cur cs fs = Inr fs' \<Longrightarrow> dirs_exist cur cs fs'"
proof (induction cs arbitrary: cur fs)
  case Nil
  then show ?case by simp
next
  case (Cons c cs)
  from mkdir_walk_step [OF Cons.prems] obtain fs1 w
    where r: "mkdir_walk (cur @ [c]) cs fs1 = Inr fs'" and d: "fs1 (cur @ [c]) = Some (Dir w)"
    by blast
  from mkdir_walk_keeps [OF r d] Cons.IH [OF r] show ?case by simp
qed

lemma LOG_DIR_components: "path_components LOG_DIR = [''usr'', ''src'', ''app'', ''logs'']"
  by (simp add: path_components_def LOG_DIR_def)

lemma example_first_run: "access_logs_module example_fs = Inr example_logs_fs"
  by (simp add: access_logs_module_def mkdirSync_recursive_def LOG_DIR_components
      example_fs_def example_logs_fs_def)

lemma example_readonly: "access_logs_module readonly_fs = Inl EACCES"
  by (simp add: access_logs_module_def mkdirSync_recursive_def LOG_DIR_components readonly_fs_def)

text \<open>
  Claim C8. Making the log directory succeeds and changes nothing when the directory and
  its parents are there; after a run that succeeded, a second run succeeds too, leaves
  the tree as it is, and the directory exists; and when the step fails the process ends
  with that error and never serves traffic.
\<close>

theorem log_dir_creation_idempotent:
  "(dirs_exist [] (path_components LOG_DIR) fs \<longrightarrow> access_logs_module fs = Inr fs) \<and>
   (access_logs_module fs = Inr fs' \<longrightarrow>
      access_logs_module fs' = Inr fs' \<and> dirs_exist [] (path_components LOG_DIR) fs') \<and>
   (access_logs_module fs = Inl e \<longrightarrow>
      boot mongo_ok fs = Crashed e \<and> \<not> serves_traffic (boot mongo_ok fs))"
  by (auto simp: access_logs_module_def mkdirSync_recursive_def boot_def serves_traffic_def
      intro: mkdir_walk_present mkdir_walk_idem mkdir_walk_makes)

text \<open>
  Two runs on a tree that lacks \<open>/usr/src/app\<close>, and a start on a tree where
  \<open>/usr/src\<close> is read-only.
\<close>

theorem log_dir_creation_idempotent_witness:
  "access_logs_module example_fs = Inr example_logs_fs \<and>
   access_logs_module example_logs_fs = Inr example_logs_fs \<and>
   access_logs_module readonly_fs = Inl EACCES \<and>
   boot True readonly_fs = Crashed EACCES \<and>
   \<not> serves_traffic (boot True readonly_fs)"
  using log_dir_creation_idempotent [of example_fs example_logs_fs EACCES True]
    log_dir_creation_idempotent [of readonly_fs example_logs_fs EACCES True]
  by (simp add: example_first_run example_readonly serves_traffic_def)

section \<open>The access-log line\<close>

subsection \<open>Digits and the one-decimal rendering\<close>

lemma digit_char_is_digit: "d < 10 \<Longrightarrow> is_digit (digit_char d)"
proof -
  assume "d < 10"
  then have "d = 0 \<or> d = 1 \<or> d = 2 \<or> d = 3 \<or> d = 4 \<or> d = 5 \<or> d = 6 \<or> d = 7 \<or> d = 8 \<or> d = 9"
    by arith
  then show ?thesis
    by (auto simp: digit_char_def is_digit_def)
qed

lemma digits_all_digit: "list_all is_digit (digits n)"
proof (induction n rule: digits.induct)
  case (1 n)
  show ?case
  proof (cases "n < 10")
    case True
    then have "nat n < 10" by simp
    with True show ?thesis by (subst digits.simps) (simp add: digit_char_is_digit)
  next
    case False
    have "nat (n mod 10) < 10" by simp
    with False 1 show ?thesis by (subst digits.simps) (simp add: digit_char_is_digit)
  qed
qed

lemma digits_nonempty: "digits n \<noteq> []"
  by (subst digits.simps) simp

lemma is_fixed1_toFixed1:
  assumes "0 \<le> x"
  shows "is_fixed1 (toFixed1 x)"
proof -
  define n where "n = \<lfloor>x * 10 + 1 / 2\<rfloor>"
  define m where "m = (if length (digits n) \<le> 1 then ''0'' @ digits n else digits n)"
  have eq: "toFixed1 x = butlast m @ ''.'' @ [last m]"
    using assms by (simp add: toFixed1_def Let_def n_def m_def)
  have len: "2 \<le> length m"
    using digits_nonempty [of n] by (cases "digits n") (auto simp: m_def Suc_le_eq)
  have dig: "list_all is_digit m"
    using digits_all_digit [of n] by (simp add: m_def is_digit_def)
  define b where "b = butlast m"
  define l where "l = last m"
  from len have "m \<noteq> []" by auto
  then have m: "m = b @ [l]" by (simp add: b_def l_def)
  from len have "1 \<le> length b" by (simp add: b_def)
  then obtain i r where rb: "rev b = i # r"
    by (cases "rev b") auto
  from dig m have "is_digit l" "list_all is_digit b" by auto
  then have "list_all is_digit (rev b)" by (simp add: list_all_iff)
  with rb \<open>is_digit l\<close> show ?thesis
    by (simp add: eq is_fixed1_def flip: b_def l_def)
qed

subsection \<open>Rounding to binary64\<close>

lemma bit_length_bounds:
  "0 < n \<Longrightarrow> 2 ^ (bit_length n - 1) \<le> n \<and> n < 2 ^ bit_length n"
proof (induction n rule: bit_length.induct)
  case (1 n)
  show ?case
  proof (cases "n = 1")
    case True
    then show ?thesis by (simp add: bit_length.simps [of 1] bit_length.simps [of 0])
  next
    case False
    with 1 have h: "0 < n div 2" "\<not> n \<le> 0" by auto
    with 1 have ih: "2 ^ (bit_length (n div 2) - 1) \<le> n div 2" "n div 2 < 2 ^ bit_length (n div 2)"
      by auto
    have pos: "0 < bit_length (n div 2)"
      using h by (subst bit_length.simps) simp
    have bl: "bit_length n = Suc (bit_length (n div 2))"
      using h by (subst bit_length.simps) simp
    have "2 ^ (bit_length n - 1) = 2 * 2 ^ (bit_length (n div 2) - 1)"
      using pos by (simp add: bl flip: power_Suc)
    also have "\<dots> \<le> 2 * (n div 2)" using ih by simp
    also have "\<dots> \<le> n" by simp
    finally have lo: "(2::int) ^ (bit_length n - 1) \<le> n" .
    have "n < 2 * (n div 2) + 2" by presburger
    also have "\<dots> \<le> 2 * 2 ^ bit_length (n div 2)" using ih by simp
    finally have hi: "n < 2 ^ bit_length n" by (simp add: bl)
    from lo hi show ?thesis by simp
  qed
qed

lemma pow2_pos: "0 < pow2 e"
  by (simp add: pow2_def)

lemma pow2_mono: "a \<le> b \<Longrightarrow> pow2 a \<le> pow2 b"
proof -
  assume ab: "a \<le> b"
  have eq: "pow2 e = power_int 2 e" for e
    by (simp add: pow2_def power_int_def field_simps)
  show ?thesis
    unfolding eq using ab by (intro power_int_increasing) simp_all
qed

lemma round_half_even_error: "\<bar>of_int (round_half_even q) - q\<bar> \<le> 1 / 2"
proof -
  have "of_int \<lfloor>q\<rfloor> \<le> q" "q < of_int \<lfloor>q\<rfloor> + 1"
    by linarith+
  then show ?thesis
    by (auto simp: round_half_even_def Let_def)
qed

lemma round_half_even_nonneg: "0 \<le> q \<Longrightarrow> 0 \<le> round_half_even q"
  by (auto simp: round_half_even_def Let_def)

lemma floor_log2_lower:
  assumes "0 < q"
  shows "pow2 (floor_log2 q) \<le> q"
proof (cases "1 \<le> q")
  case True
  then have p: "0 < \<lfloor>q\<rfloor>" by simp
  from bit_length_bounds [OF p] have lo: "2 ^ (bit_length \<lfloor>q\<rfloor> - 1) \<le> \<lfloor>q\<rfloor>" by simp
  have pos: "0 < bit_length \<lfloor>q\<rfloor>"
    using p by (subst bit_length.simps) simp
  then have "pow2 (floor_log2 q) = 2 ^ (bit_length \<lfloor>q\<rfloor> - 1)"
    using True by (simp add: floor_log2_def pow2_def nat_diff_distrib')
  also have "\<dots> = of_int (2 ^ (bit_length \<lfloor>q\<rfloor> - 1))" by simp
  also have "\<dots> \<le> of_int \<lfloor>q\<rfloor>" using lo by (simp only: of_int_le_iff)
  also have "\<dots> \<le> q" by simp
  finally show ?thesis .
next
  case False
  with assms have "1 < 1 / q" by simp
  then have k: "0 < \<lceil>1 / q\<rceil> - 1" by linarith
  define j where "j = bit_length (\<lceil>1 / q\<rceil> - 1)"
  from bit_length_bounds [OF k] have "\<lceil>1 / q\<rceil> - 1 < 2 ^ j" by (simp add: j_def)
  then have "\<lceil>1 / q\<rceil> \<le> 2 ^ j" by simp
  then have "of_int \<lceil>1 / q\<rceil> \<le> (of_int (2 ^ j) :: rat)" by (simp only: of_int_le_iff)
  then have "1 / q \<le> 2 ^ j"
    by (metis le_of_int_ceiling of_int_numeral of_int_power order_trans)
  then have "1 / 2 ^ j \<le> q"
    using assms by (simp add: field_simps)
  moreover have "0 < j"
    unfolding j_def using k by (subst bit_length.simps) simp
  ultimately show ?thesis
    using False by (simp add: floor_log2_def pow2_def flip: j_def)
qed

lemma floor_log2_upper:
  assumes "0 < q"
  shows "q < pow2 (floor_log2 q + 1)"
proof (cases "1 \<le> q")
  case True
  then have p: "0 < \<lfloor>q\<rfloor>" by simp
  from bit_length_bounds [OF p] have "\<lfloor>q\<rfloor> + 1 \<le> 2 ^ bit_length \<lfloor>q\<rfloor>" by simp
  then have "of_int (\<lfloor>q\<rfloor> + 1) \<le> (of_int (2 ^ bit_length \<lfloor>q\<rfloor>) :: rat)"
    by (simp only: of_int_le_iff)
  moreover have "q < of_int (\<lfloor>q\<rfloor> + 1)" by linarith
  ultimately have "q < 2 ^ bit_length \<lfloor>q\<rfloor>" by simp
  then show ?thesis
    using True by (simp add: floor_log2_def pow2_def)
next
  case False
  with assms have "1 < 1 / q" by simp
  then have k: "0 < \<lceil>1 / q\<rceil> - 1" by linarith
  define j where "j = bit_length (\<lceil>1 / q\<rceil> - 1)"
  have j: "0 < j"
    unfolding j_def using k by (subst bit_length.simps) simp
  from bit_length_bounds [OF k] have "2 ^ (j - 1) \<le> \<lceil>1 / q\<rceil> - 1" by (simp add: j_def)
  then have "(of_int (2 ^ (j - 1)) :: rat) \<le> of_int (\<lceil>1 / q\<rceil> - 1)" by (simp only: of_int_le_iff)
  moreover have "of_int (\<lceil>1 / q\<rceil> - 1) < 1 / q" by linarith
  ultimately have "2 ^ (j - 1) < 1 / q" by simp
  then have lt: "q < 1 / 2 ^ (j - 1)"
    using assms by (simp add: field_simps)
  show ?thesis
  proof (cases "j = 1")
    case True
    with lt show ?thesis using False by (simp add: floor_log2_def pow2_def flip: j_def)
  next
    case False
    with j have "1 < j" by simp
    then have "nat (int j - 1) = j - 1" by simp
    with lt \<open>1 < j\<close> show ?thesis
      using \<open>\<not> 1 \<le> q\<close> by (simp add: floor_log2_def pow2_def flip: j_def)
  qed
qed

lemma to_double_error:
  assumes "q \<noteq> 0"
  shows "\<bar>to_double q - q\<bar> \<le> pow2 (floor_log2 \<bar>q\<bar> - 52) / 2"
proof -
  define u where "u = pow2 (floor_log2 \<bar>q\<bar> - 52)"
  have u: "0 < u" by (simp add: u_def pow2_pos)
  define m where "m = \<bar>q\<bar> / u"
  have q: "q = sgn q * (m * u)"
    using u by (simp add: m_def abs_sgn)
  have "to_double q - q = sgn q * ((of_int (round_half_even m) - m) * u)"
    using assms by (subst (2) q) (simp add: to_double_def Let_def algebra_simps flip: u_def m_def)
  then have "\<bar>to_double q - q\<bar> = \<bar>of_int (round_half_even m) - m\<bar> * u"
    using assms u by (simp add: abs_mult abs_sgn_eq)
  also have "\<dots> \<le> 1 / 2 * u"
    using round_half_even_error [of m] u by (intro mult_right_mono) simp_all
  finally show ?thesis by (simp add: u_def)
qed

lemma to_double_nonneg:
  assumes "0 \<le> q"
  shows "0 \<le> to_double q"
proof (cases "q = 0")
  case True
  then show ?thesis by (simp add: to_double_def)
next
  case False
  with assms have "0 < q" by simp
  then have "0 \<le> round_half_even (\<bar>q\<bar> / pow2 (floor_log2 \<bar>q\<bar> - 52))"
    using pow2_pos [of "floor_log2 \<bar>q\<bar> - 52"] by (intro round_half_even_nonneg) simp
  with \<open>0 < q\<close> show ?thesis
    using pow2_pos [of "floor_log2 \<bar>q\<bar> - 52"] by (simp add: to_double_def Let_def)
qed

lemma to_double_abs_le: "\<bar>to_double q\<bar> \<le> 2 * \<bar>q\<bar>"
proof (cases "q = 0")
  case True
  then show ?thesis by (simp add: to_double_def)
next
  case False
  then have a: "0 < \<bar>q\<bar>" by simp
  have "pow2 (floor_log2 \<bar>q\<bar> - 52) \<le> pow2 (floor_log2 \<bar>q\<bar>)"
    by (rule pow2_mono) simp
  also have "\<dots> \<le> \<bar>q\<bar>" by (rule floor_log2_lower [OF a])
  finally have "pow2 (floor_log2 \<bar>q\<bar> - 52) / 2 \<le> \<bar>q\<bar>"
    using a by simp
  with to_double_error [OF False] show ?thesis by linarith
qed

lemma uint_diff_bound: "\<bar>uint (now :: 64 word) - uint (start :: 64 word)\<bar> < 2 ^ 64"
proof -
  have "0 \<le> uint now" "uint now < 2 ^ 64" "0 \<le> uint start" "uint start < 2 ^ 64"
    using uint_bounded [of now] uint_bounded [of start] by simp_all
  then show ?thesis by linarith
qed

lemma durationMs_lt: "\<bar>durationMs start now\<bar> < 10 ^ 21"
proof -
  define d where "d = uint now - uint start"
  have "\<bar>d\<bar> < 2 ^ 64" unfolding d_def by (rule uint_diff_bound)
  then have "\<bar>of_int d :: rat\<bar> < of_int (2 ^ 64)"
    by (simp only: of_int_less_iff flip: of_int_abs)
  then have d: "\<bar>of_int d :: rat\<bar> < 2 ^ 64" by simp
  have "\<bar>durationMs start now\<bar> \<le> 2 * \<bar>to_double (of_int d) / 1000000\<bar>"
    unfolding durationMs_def d_def by (rule to_double_abs_le)
  also have "\<dots> = \<bar>to_double (of_int d)\<bar> / 500000" by simp
  also have "\<dots> \<le> 2 * \<bar>of_int d\<bar> / 500000"
    using to_double_abs_le [of "of_int d"] by (simp add: divide_right_mono)
  also have "\<dots> < 2 * 2 ^ 64 / 500000" using d by (simp add: divide_strict_right_mono)
  also have "\<dots> < 10 ^ 21" by simp
  finally show ?thesis .
qed

lemma durationMs_nonneg:
  assumes "start \<le> now"
  shows "0 \<le> durationMs start now"
proof -
  from assms have "uint start \<le> uint now" by (simp only: word_le_def)
  then have "(0::int) \<le> uint now - uint start" by linarith
  then have "0 \<le> (of_int (uint now - uint start) :: rat)" by (simp only: of_int_0_le_iff)
  then have "0 \<le> to_double (of_int (uint now - uint start)) / 1000000"
    by (intro divide_nonneg_pos to_double_nonneg) simp_all
  then show ?thesis
    unfolding durationMs_def by (rule to_double_nonneg)
qed

subsection \<open>The line\<close>

lemma is_fixed1_chars:
  assumes "is_fixed1 str" and "c \<in> set str"
  shows "is_digit c \<or> c = CHR ''.''"
proof -
  from assms(1) obtain d p i r where r: "rev str = d # p # i # r"
    and "is_digit d" "p = CHR ''.''" "list_all is_digit (i # r)"
    by (auto simp: is_fixed1_def split: list.splits)
  moreover from assms(2) have "c \<in> set (rev str)" by simp
  ultimately show ?thesis by (auto simp: list_all_iff)
qed

lemma plain_digits: "list_all is_digit str \<Longrightarrow> plain_field str"
  by (auto simp: plain_field_def list_all_iff is_digit_def)

lemma plain_fixed1:
  assumes "is_fixed1 str"
  shows "plain_field (str @ ''ms'')"
proof -
  have "c \<noteq> CHR '' '' \<and> c \<noteq> CHR 0x0A" if "c \<in> set str" for c
    using is_fixed1_chars [OF assms that] by (auto simp: is_digit_def)
  then show ?thesis by (auto simp: plain_field_def)
qed

lemma split_on_plain: "c \<notin> set a \<Longrightarrow> split_on c a = [a]"
  by (induction a) auto

lemma split_on_append: "c \<notin> set a \<Longrightarrow> split_on c (a @ c # rest) = a # split_on c rest"
  by (induction a) auto

lemma split_on_six:
  assumes "plain_field a" "plain_field b" "plain_field c" "plain_field d" "plain_field e"
    "plain_field f"
  shows "split_on CHR '' '' (a @ '' '' @ b @ '' '' @ c @ '' '' @ d @ '' '' @ e @ '' '' @ f)
           = [a, b, c, d, e, f]"
    and "CHR 0x0A \<notin> set (a @ '' '' @ b @ '' '' @ c @ '' '' @ d @ '' '' @ e @ '' '' @ f)"
  using assms by (simp_all add: plain_field_def split_on_append split_on_plain)

lemma split_on_nonempty: "split_on c str \<noteq> []"
  by (induction str) (auto split: list.splits)

lemma split_on_sep: "split_on c (a @ c # b) = split_on c a @ split_on c b"
proof (induction a)
  case Nil
  then show ?case by simp
next
  case (Cons x xs)
  obtain w ws where "split_on c xs = w # ws"
    using split_on_nonempty [of c xs] by (cases "split_on c xs") auto
  with Cons show ?case by simp
qed

lemma length_split_on: "length (split_on c str) = Suc (count_list str c)"
proof (induction str)
  case Nil
  then show ?case by simp
next
  case (Cons x xs)
  obtain w ws where "split_on c xs = w # ws"
    using split_on_nonempty [of c xs] by (cases "split_on c xs") auto
  with Cons show ?case by auto
qed

text \<open>
  Claim C5, as amended. The \<open>finish\<close> listener issues one append, of a line made of the
  timestamp, the client address, the method, the path, the status code and the duration
  followed by \<open>ms\<close>, in this order, each followed by one space but the last, which is
  followed by a line feed. With a clock that has not gone backwards the duration is not
  negative, stays below the \<open>10^21\<close> where \<open>toFixed\<close> changes notation, and is written
  as digits, a point and one digit. Split at its spaces, the line gives the pieces of
  the timestamp, of the client address, of the method and of the path, then the status
  code and the duration: six pieces and one more for every space inside those four
  fields. When the four fields hold no space and no line feed, the pieces are exactly
  the six fields and the only line feed of the line is its last character.
\<close>

theorem access_line_format:
  assumes "start \<le> hrtime s"
  shows "new_events s (run_listener (AccessFinish req start) s) =
           [FsAppendFile ACCESS_LOG (access_line req start s)] \<and>
         access_line req start s =
           date_iso s @ '' '' @ clientIp req @ '' '' @ req_method req @ '' '' @
           js_or_str (originalUrl req) (url req) @ '' '' @ digits (int (statusCode s)) @ '' '' @
           toFixed1 (durationMs start (hrtime s)) @ ''ms'' @ [CHR 0x0A] \<and>
         0 \<le> durationMs start (hrtime s) \<and>
         durationMs start (hrtime s) < 10 ^ 21 \<and>
         is_fixed1 (toFixed1 (durationMs start (hrtime s))) \<and>
         last (access_line req start s) = CHR 0x0A \<and>
         split_on CHR '' '' (butlast (access_line req start s)) =
           split_on CHR '' '' (date_iso s) @ split_on CHR '' '' (clientIp req) @
           split_on CHR '' '' (req_method req) @
           split_on CHR '' '' (js_or_str (originalUrl req) (url req)) @
           [digits (int (statusCode s)), toFixed1 (durationMs start (hrtime s)) @ ''ms''] \<and>
         length (split_on CHR '' '' (butlast (access_line req start s))) =
           6 + count_list (date_iso s) CHR '' '' + count_list (clientIp req) CHR '' '' +
           count_list (req_method req) CHR '' '' +
           count_list (js_or_str (originalUrl req) (url req)) CHR '' '' \<and>
         (plain_field (date_iso s) \<and> plain_field (clientIp req) \<and> plain_field (req_method req) \<and>
          plain_field (js_or_str (originalUrl req) (url req)) \<longrightarrow>
            split_on CHR '' '' (butlast (access_line req start s)) =
              [date_iso s, clientIp req, req_method req, js_or_str (originalUrl req) (url req),
               digits (int (statusCode s)), toFixed1 (durationMs start (hrtime s)) @ ''ms''] \<and>
            CHR 0x0A \<notin> set (butlast (access_line req start s)))"
proof -
  define dur where "dur = toFixed1 (durationMs start (hrtime s))"
  define body where "body =
     date_iso s @ '' '' @ clientIp req @ '' '' @ req_method req @ '' '' @
     js_or_str (originalUrl req) (url req) @ '' '' @ digits (int (statusCode s)) @ '' '' @
     (dur @ ''ms'')"
  have line: "access_line req start s = body @ [CHR 0x0A]"
    by (simp add: access_line_def body_def dur_def)
  have nn: "0 \<le> durationMs start (hrtime s)"
    using assms by (rule durationMs_nonneg)
  then have fx: "is_fixed1 dur"
    unfolding dur_def by (rule is_fixed1_toFixed1)
  have lt: "durationMs start (hrtime s) < 10 ^ 21"
    using durationMs_lt [of start "hrtime s"] by linarith
  have ev: "new_events s (run_listener (AccessFinish req start) s) =
      [FsAppendFile ACCESS_LOG (access_line req start s)]"
    by (simp add: fs_appendFile_def log_event_def new_events_def)
  have pd: "plain_field (digits (int (statusCode s)))"
    by (rule plain_digits [OF digits_all_digit])
  have pm: "plain_field (dur @ ''ms'')"
    by (rule plain_fixed1 [OF fx])
  have tail: "split_on CHR '' '' (digits (int (statusCode s)) @ '' '' @ (dur @ ''ms'')) =
      [digits (int (statusCode s)), dur @ ''ms'']"
    using pd pm by (simp add: plain_field_def split_on_append split_on_plain)
  have pieces: "split_on CHR '' '' body =
      split_on CHR '' '' (date_iso s) @ split_on CHR '' '' (clientIp req) @
      split_on CHR '' '' (req_method req) @
      split_on CHR '' '' (js_or_str (originalUrl req) (url req)) @
      [digits (int (statusCode s)), dur @ ''ms'']"
    unfolding body_def using tail by (simp add: split_on_sep)
  have len: "length (split_on CHR '' '' body) =
      6 + count_list (date_iso s) CHR '' '' + count_list (clientIp req) CHR '' '' +
      count_list (req_method req) CHR '' '' +
      count_list (js_or_str (originalUrl req) (url req)) CHR '' ''"
    unfolding pieces by (simp add: length_split_on)
  have parse: "split_on CHR '' '' body =
        [date_iso s, clientIp req, req_method req, js_or_str (originalUrl req) (url req),
         digits (int (statusCode s)), dur @ ''ms''] \<and> CHR 0x0A \<notin> set body"
    if "plain_field (date_iso s)" "plain_field (clientIp req)" "plain_field (req_method req)"
      "plain_field (js_or_str (originalUrl req) (url req))"
    unfolding body_def
    using split_on_six [OF that pd pm]
    by blast
  have bl: "butlast (access_line req start s) = body" "last (access_line req start s) = CHR 0x0A"
    by (simp_all add: line)
  show ?thesis
    unfolding bl using ev nn lt fx parse pieces len line
    by (simp add: body_def dur_def)
qed

lemma example_duration: "toFixed1 (durationMs 1000 1201000) = ''1.2''"
  by code_simp

text \<open>The example request, 1.2 ms after it arrived, with status 200.\<close>

theorem access_line_format_witness:
  "access_line example_req 1000 (example_proc\<lparr>hrtime := 1201000, statusCode := 200\<rparr>) =
     ''2025-11-04T10:47:26.512Z 10.0.0.5 GET /api/health 200 1.2ms'' @ [CHR 0x0A] \<and>
   is_fixed1 ''1.2'' \<and>
   split_on CHR '' ''
       (butlast (access_line example_req 1000 (example_proc\<lparr>hrtime := 1201000, statusCode := 200\<rparr>))) =
     [''2025-11-04T10:47:26.512Z'', ''10.0.0.5'', ''GET'', ''/api/health'', ''200'', ''1.2ms'']"
proof -
  define st where "st = example_proc\<lparr>hrtime := 1201000, statusCode := 200\<rparr>"
  have v: "hrtime st = 1201000" "statusCode st = 200" "date_iso st = ''2025-11-04T10:47:26.512Z''"
    by (simp_all add: st_def example_proc_def)
  have r: "req_method example_req = ''GET''"
    "js_or_str (originalUrl example_req) (url example_req) = ''/api/health''"
    by (simp_all add: example_req_def js_or_str_def)
  have ip: "clientIp example_req = ''10.0.0.5''"
    by (simp add: clientIp_cases js_or_str_def js_trim_Nil peer_address_def example_req_def)
  have dg: "digits (int 200) = ''200''"
    by (simp add: digits.simps digit_char_def)
  have le: "1000 \<le> hrtime st"
    by (simp add: v)
  note t = access_line_format [OF le, of example_req, unfolded v r ip dg example_duration]
  have pl: "plain_field ''2025-11-04T10:47:26.512Z''" "plain_field ''10.0.0.5''"
    "plain_field ''GET''" "plain_field ''/api/health''"
    by (simp_all add: plain_field_def)
  from t pl show ?thesis
    unfolding st_def [symmetric] by simp
qed

text \<open>
  Claim C5 as first stated fails for a forwarded-for entry that holds a space: the client
  address is copied into the line as it is, and the line splits into seven pieces.
\<close>

theorem client_address_with_space_counterexample:
  "split_on CHR '' ''
     (butlast (access_line spaced_req 1000 (example_proc\<lparr>hrtime := 1201000, statusCode := 200\<rparr>))) =
     [''2025-11-04T10:47:26.512Z'', ''1.2.3.4'', ''evil'', ''GET'', ''/api/health'', ''200'', ''1.2ms''] \<and>
   length (split_on CHR '' ''
     (butlast (access_line spaced_req 1000 (example_proc\<lparr>hrtime := 1201000, statusCode := 200\<rparr>)))) = 7"
  by code_simp

end
